theory Spec2Isabelle
  imports Complex_Main
begin

section \<open>Data model (models/Bid.js, models/Project.js)\<close>

text \<open>
  A MongoDB ObjectId is an opaque identifier; documents of a collection are kept in
  insertion order, each carrying its \<open>_id\<close>. The \<open>createdAt\<close> and
  \<open>updatedAt\<close> stamps that \<open>timestamps: true\<close> adds are wall-clock values and
  are left out of the documents. Stored documents are taken to satisfy the validators of
  their schema, as every document written by the routes does, so that saving a loaded
  document is not refused.

  The route handlers are modelled from the point where \<open>authenticateToken\<close> and
  \<open>requireRole\<close> have let the request through: \<open>req.user._id\<close> is an argument.
\<close>

type_synonym oid = nat

datatype bid_status = Pending | Accepted | Rejected

datatype project_status = Open | In_progress | Completed

record bid =
  b_id :: oid
  projectId :: oid
  developerId :: oid
  bidAmount :: rat
  message :: string
  b_status :: bid_status
  estimatedDelivery :: "nat option"

record project =
  p_id :: oid
  title :: string
  description :: string
  techStack :: "string list"
  estimatedBudget :: rat
  p_status :: project_status
  createdBy :: oid
  assignedTo :: "oid option"
  deadline :: "nat option"

record db =
  projects :: "project list"
  bids :: "bid list"

section \<open>Store operations used by the routes\<close>

definition findProject :: "db \<Rightarrow> oid \<Rightarrow> project option" where
  \<comment> \<open>\<open>Project.findById(id)\<close>\<close>
  "findProject s i = find (\<lambda>p. p_id p = i) (projects s)"

definition findBid :: "db \<Rightarrow> oid \<Rightarrow> bid option" where
  \<comment> \<open>\<open>Bid.findById(id)\<close>\<close>
  "findBid s i = find (\<lambda>b. b_id b = i) (bids s)"

definition findOneBid :: "db \<Rightarrow> oid \<Rightarrow> oid \<Rightarrow> bid option" where
  \<comment> \<open>\<open>Bid.findOne({ projectId, developerId })\<close>\<close>
  "findOneBid s pid dev = find (\<lambda>b. projectId b = pid \<and> developerId b = dev) (bids s)"

fun updateOne :: "('a \<Rightarrow> bool) \<Rightarrow> ('a \<Rightarrow> 'a) \<Rightarrow> 'a list \<Rightarrow> 'a list" where
  "updateOne q f [] = []"
| "updateOne q f (x # xs) = (if q x then f x # xs else x # updateOne q f xs)"

definition saveStatus :: "bid \<Rightarrow> bid_status \<Rightarrow> bid list \<Rightarrow> bid list" where
  \<comment> \<open>\<open>bid.status = status; await bid.save()\<close> on a loaded document: the assignment
      marks the path modified only when the value differs from the loaded one, and
      \<open>save\<close> writes the modified paths of the document with that \<open>_id\<close>.\<close>
  "saveStatus loaded st bs =
     (if b_status loaded = st then bs
      else updateOne (\<lambda>b. b_id b = b_id loaded) (\<lambda>b. b\<lparr>b_status := st\<rparr>) bs)"

definition findByIdAndUpdate :: "oid \<Rightarrow> oid \<Rightarrow> project list \<Rightarrow> project list" where
  \<comment> \<open>\<open>Project.findByIdAndUpdate(id, { status: 'in progress', assignedTo: dev })\<close>\<close>
  "findByIdAndUpdate pid dev ps =
     updateOne (\<lambda>p. p_id p = pid) (\<lambda>p. p\<lparr>p_status := In_progress, assignedTo := Some dev\<rparr>) ps"

definition rejectOthers :: "oid \<Rightarrow> oid \<Rightarrow> bid list \<Rightarrow> bid list" where
  \<comment> \<open>\<open>Bid.updateMany({ projectId: pid, _id: { $ne: bidId }, status: 'pending' },
      { status: 'rejected' })\<close>\<close>
  "rejectOthers pid bidId bs =
     map (\<lambda>b. if projectId b = pid \<and> b_id b \<noteq> bidId \<and> b_status b = Pending
              then b\<lparr>b_status := Rejected\<rparr> else b) bs"

section \<open>Responses\<close>

datatype outcome =
    ValidationFailed "string list"  \<comment> \<open>400 'Validation failed'\<close>
  | ProjectNotFound                 \<comment> \<open>404 'Project not found'\<close>
  | ProjectNotOpen                  \<comment> \<open>400 'Project is not open for bidding'\<close>
  | DuplicateBid                    \<comment> \<open>409 'You have already placed a bid on this project'\<close>
  | BidPlaced bid                   \<comment> \<open>201 'Bid placed successfully'\<close>
  | InvalidStatus                   \<comment> \<open>400 'Status must be either "accepted" or "rejected"'\<close>
  | BidNotFound                     \<comment> \<open>404 'Bid not found'\<close>
  | NotOwner                        \<comment> \<open>403 'You can only update bids for your own projects'\<close>
  | BidUpdated bid                  \<comment> \<open>200 'Bid ... successfully'\<close>
  | ServerError                     \<comment> \<open>500, the \<open>catch\<close> block of a handler\<close>

fun http_code :: "outcome \<Rightarrow> nat" where
  "http_code (ValidationFailed _) = 400"
| "http_code ProjectNotFound = 404"
| "http_code ProjectNotOpen = 400"
| "http_code DuplicateBid = 409"
| "http_code (BidPlaced _) = 201"
| "http_code InvalidStatus = 400"
| "http_code BidNotFound = 404"
| "http_code NotOwner = 403"
| "http_code (BidUpdated _) = 200"
| "http_code ServerError = 500"

section \<open>POST /bids/place\<close>

text \<open>
  The request body after JSON parsing. A field that cannot hold a value of the expected
  kind is \<open>None\<close>: a \<open>projectId\<close> that is not the text of an ObjectId, a
  \<open>bidAmount\<close> that is absent or not numeric. Strings are ASCII.
\<close>

datatype date_field = NoDate | BadDate | ISODate nat

record place_body =
  pb_projectId :: "oid option"
  pb_bidAmount :: "rat option"
  pb_message :: string
  pb_estimatedDelivery :: date_field

definition is_space :: "char \<Rightarrow> bool" where
  "is_space c = (c \<in> set [CHR '' '', CHR 0x09, CHR 0x0A, CHR 0x0B, CHR 0x0C, CHR 0x0D])"

definition trim :: "string \<Rightarrow> string" where
  "trim s = rev (dropWhile is_space (rev (dropWhile is_space s)))"

definition validateBid :: "place_body \<Rightarrow> string list" where
  \<comment> \<open>the \<open>validateBid\<close> chain; the result is what \<open>validationResult(req)\<close> holds.
      Every validator of a chain runs: a value that is not numeric fails \<open>isNumeric\<close>
      (which has no message of its own) and \<open>isFloat\<close>.\<close>
  "validateBid body =
     (if pb_projectId body = None then [''Valid project ID is required''] else []) @
     (case pb_bidAmount body of
        None \<Rightarrow> [''Invalid value'', ''Bid amount must be a positive number'']
      | Some a \<Rightarrow> if 0 \<le> a then [] else [''Bid amount must be a positive number'']) @
     (if 10 \<le> length (trim (pb_message body)) \<and> length (trim (pb_message body)) \<le> 500
      then [] else [''Message must be between 10 and 500 characters'']) @
     (if pb_estimatedDelivery body = BadDate
      then [''Estimated delivery must be a valid date''] else [])"

definition newBid :: "oid \<Rightarrow> oid \<Rightarrow> oid \<Rightarrow> rat \<Rightarrow> place_body \<Rightarrow> bid" where
  \<comment> \<open>\<open>new Bid({ projectId, developerId: req.user._id, bidAmount, message,
      estimatedDelivery })\<close>; \<open>status\<close> takes the schema default \<open>'pending'\<close>\<close>
  "newBid nid pid dev amt body =
     \<lparr> b_id = nid, projectId = pid, developerId = dev, bidAmount = amt,
       message = trim (pb_message body), b_status = Pending,
       estimatedDelivery = (case pb_estimatedDelivery body of ISODate d \<Rightarrow> Some d | _ \<Rightarrow> None) \<rparr>"

definition placeBid :: "db \<Rightarrow> oid \<Rightarrow> place_body \<Rightarrow> oid \<Rightarrow> outcome \<times> db" where
  \<comment> \<open>\<open>user\<close> is \<open>req.user._id\<close>; \<open>nid\<close> is the ObjectId the driver gives the new
      document. Inserting under an \<open>_id\<close> already in the collection is a duplicate-key
      error, which the handler's \<open>catch\<close> turns into 500.\<close>
  "placeBid s user body nid =
     (if validateBid body \<noteq> [] then (ValidationFailed (validateBid body), s)
      else case pb_projectId body of
        None \<Rightarrow> (ServerError, s)
      | Some pid \<Rightarrow>
         (case findProject s pid of
            None \<Rightarrow> (ProjectNotFound, s)
          | Some p \<Rightarrow>
             if p_status p \<noteq> Open then (ProjectNotOpen, s)
             else (case findOneBid s pid user of
                Some existingBid \<Rightarrow> (DuplicateBid, s)
              | None \<Rightarrow>
                 (case pb_bidAmount body of
                    None \<Rightarrow> (ServerError, s)
                  | Some amt \<Rightarrow>
                     if nid \<in> set (map b_id (bids s)) then (ServerError, s)
                     else (BidPlaced (newBid nid pid user amt body),
                           s\<lparr>bids := bids s @ [newBid nid pid user amt body]\<rparr>)))))"

section \<open>PUT /bids/:id/status\<close>

definition parseStatus :: "string \<Rightarrow> bid_status option" where
  \<comment> \<open>\<open>['accepted', 'rejected'].includes(status)\<close>\<close>
  "parseStatus st =
     (if st = ''accepted'' then Some Accepted
      else if st = ''rejected'' then Some Rejected else None)"

definition decideBid :: "db \<Rightarrow> oid \<Rightarrow> oid option \<Rightarrow> string \<Rightarrow> outcome \<times> db" where
  \<comment> \<open>\<open>user\<close> is \<open>req.user._id\<close>, \<open>idp\<close> is \<open>req.params.id\<close> (\<open>None\<close> when it is not
      the text of an ObjectId, a cast error), \<open>st\<close> is \<open>req.body.status\<close>. A bid whose
      project is gone is populated with \<open>null\<close>, and reading \<open>createdBy\<close> of it
      throws.\<close>
  "decideBid s user idp st =
     (case parseStatus st of
        None \<Rightarrow> (InvalidStatus, s)
      | Some status \<Rightarrow>
         (case idp of
            None \<Rightarrow> (ServerError, s)
          | Some i \<Rightarrow>
             (case findBid s i of
                None \<Rightarrow> (BidNotFound, s)
              | Some b \<Rightarrow>
                 (case findProject s (projectId b) of
                    None \<Rightarrow> (ServerError, s)
                  | Some p \<Rightarrow>
                     if createdBy p \<noteq> user then (NotOwner, s)
                     else if status = Accepted then
                       (BidUpdated (b\<lparr>b_status := status\<rparr>),
                        s\<lparr>projects := findByIdAndUpdate (p_id p) (developerId b) (projects s),
                          bids := rejectOthers (p_id p) (b_id b) (saveStatus b status (bids s))\<rparr>)
                     else
                       (BidUpdated (b\<lparr>b_status := status\<rparr>),
                        s\<lparr>bids := saveStatus b status (bids s)\<rparr>)))))"

section \<open>Sequences of requests\<close>

datatype request =
    PlaceBid oid place_body oid
  | DecideBid oid "oid option" string

fun handle :: "db \<Rightarrow> request \<Rightarrow> outcome \<times> db" where
  "handle s (PlaceBid user body nid) = placeBid s user body nid"
| "handle s (DecideBid user idp st) = decideBid s user idp st"

fun run :: "db \<Rightarrow> request list \<Rightarrow> outcome list \<times> db" where
  "run s [] = ([], s)"
| "run s (r # rs) =
     (case handle s r of (out, s') \<Rightarrow>
        (case run s' rs of (outs, s'') \<Rightarrow> (out # outs, s'')))"

definition acceptedBids :: "db \<Rightarrow> oid \<Rightarrow> bid list" where
  \<comment> \<open>the bids of a project whose status is accepted\<close>
  "acceptedBids s pid = filter (\<lambda>b. projectId b = pid \<and> b_status b = Accepted) (bids s)"

section \<open>The status handler between its awaits\<close>

text \<open>
  The handler of PUT /bids/:id/status is an \<open>async\<close> function: it runs without
  interruption up to each \<open>await\<close>, where other requests may run. A task records which
  store operation the handler is waiting for and the local variables it holds;
  \<open>step\<close> performs that operation on the store and runs the handler to its next
  \<open>await\<close>. The closing \<open>bid.populate('developerId', ...)\<close> reads the user
  collection only and is left out.
\<close>

datatype task =
    Await_findById oid oid bid_status
  | Await_populate oid bid_status bid
  | Await_save bid_status bid project
  | Await_findByIdAndUpdate bid project
  | Await_updateMany bid project
  | Finished outcome

definition start :: "oid \<Rightarrow> oid option \<Rightarrow> string \<Rightarrow> task" where
  "start user idp st =
     (case parseStatus st of
        None \<Rightarrow> Finished InvalidStatus
      | Some status \<Rightarrow>
         (case idp of
            None \<Rightarrow> Finished ServerError
          | Some i \<Rightarrow> Await_findById user i status))"

fun step :: "db \<Rightarrow> task \<Rightarrow> task \<times> db" where
  "step s (Await_findById user i status) =
     (case findBid s i of
        None \<Rightarrow> (Finished BidNotFound, s)
      | Some b \<Rightarrow> (Await_populate user status b, s))"
| "step s (Await_populate user status b) =
     (case findProject s (projectId b) of
        None \<Rightarrow> (Finished ServerError, s)
      | Some p \<Rightarrow>
         if createdBy p \<noteq> user then (Finished NotOwner, s)
         else (Await_save status b p, s))"
| "step s (Await_save status b p) =
     (if status = Accepted
      then (Await_findByIdAndUpdate (b\<lparr>b_status := status\<rparr>) p,
            s\<lparr>bids := saveStatus b status (bids s)\<rparr>)
      else (Finished (BidUpdated (b\<lparr>b_status := status\<rparr>)),
            s\<lparr>bids := saveStatus b status (bids s)\<rparr>))"
| "step s (Await_findByIdAndUpdate b p) =
     (Await_updateMany b p,
      s\<lparr>projects := findByIdAndUpdate (p_id p) (developerId b) (projects s)\<rparr>)"
| "step s (Await_updateMany b p) =
     (Finished (BidUpdated b), s\<lparr>bids := rejectOthers (p_id p) (b_id b) (bids s)\<rparr>)"
| "step s (Finished out) = (Finished out, s)"

fun steps :: "nat \<Rightarrow> db \<Rightarrow> task \<Rightarrow> task \<times> db" where
  "steps 0 s t = (t, s)"
| "steps (Suc n) s t = (case step s t of (t', s') \<Rightarrow> steps n s' t')"

fun interleave :: "bool list \<Rightarrow> db \<Rightarrow> task \<Rightarrow> task \<Rightarrow> db \<times> task \<times> task" where
  \<comment> \<open>two requests in flight; the schedule says whose awaited operation completes next\<close>
  "interleave [] s t1 t2 = (s, t1, t2)"
| "interleave (c # cs) s t1 t2 =
     (if c then (case step s t1 of (t1', s') \<Rightarrow> interleave cs s' t1' t2)
      else (case step s t2 of (t2', s') \<Rightarrow> interleave cs s' t1 t2'))"

section \<open>What an accept request in flight relies on\<close>

definition stored :: "db \<Rightarrow> oid \<Rightarrow> bid_status option" where
  \<comment> \<open>the status of bid \<open>i\<close> in the store\<close>
  "stored s i = map_option b_status (findBid s i)"

definition owned :: "db \<Rightarrow> oid \<Rightarrow> oid \<Rightarrow> bool" where
  \<comment> \<open>bid \<open>i\<close> exists, and so does its project, created by \<open>user\<close>\<close>
  "owned s user i =
     (case findBid s i of
        None \<Rightarrow> False
      | Some b \<Rightarrow>
         (case findProject s (projectId b) of
            None \<Rightarrow> False
          | Some p \<Rightarrow> createdBy p = user))"

definition loaded_ok :: "db \<Rightarrow> oid \<Rightarrow> bid \<Rightarrow> bool" where
  \<comment> \<open>a bid document read earlier: it has the \<open>_id\<close> and project of the stored one, and
      if it was read as accepted the stored one still is\<close>
  "loaded_ok s i b =
     (b_id b = i \<and> map_option projectId (findBid s i) = Some (projectId b) \<and>
      (if b_status b = Accepted then stored s i = Some Accepted else True))"

fun accepting :: "db \<Rightarrow> oid \<Rightarrow> oid \<Rightarrow> task \<Rightarrow> bool" where
  \<comment> \<open>the task is an accept request of \<open>user\<close> for bid \<open>i\<close>, at some await or finished
      with 200\<close>
  "accepting s user i (Await_findById u j st) = (u = user \<and> j = i \<and> st = Accepted)"
| "accepting s user i (Await_populate u st b) = (u = user \<and> st = Accepted \<and> loaded_ok s i b)"
| "accepting s user i (Await_save st b p) = (st = Accepted \<and> loaded_ok s i b)"
| "accepting s user i (Await_findByIdAndUpdate b p) = (b_id b = i \<and> stored s i = Some Accepted)"
| "accepting s user i (Await_updateMany b p) = (b_id b = i \<and> stored s i = Some Accepted)"
| "accepting s user i (Finished out) =
     ((case out of BidUpdated b \<Rightarrow> True | _ \<Rightarrow> False) \<and> stored s i = Some Accepted)"

fun remaining :: "task \<Rightarrow> nat" where
  \<comment> \<open>how many store operations the handler has still to wait for, at most\<close>
  "remaining (Await_findById u j st) = 5"
| "remaining (Await_populate u st b) = 4"
| "remaining (Await_save st b p) = 3"
| "remaining (Await_findByIdAndUpdate b p) = 2"
| "remaining (Await_updateMany b p) = 1"
| "remaining (Finished out) = 0"

section \<open>Example data\<close>

definition shop :: project where
  "shop = \<lparr> p_id = 1, title = ''Web shop'', description = ''A small web shop with a cart'',
            techStack = [''node'', ''mongodb''], estimatedBudget = 1500, p_status = Open,
            createdBy = 10, assignedTo = None, deadline = None \<rparr>"

definition offer :: place_body where
  "offer = \<lparr> pb_projectId = Some 1, pb_bidAmount = Some 900,
             pb_message = ''I can build this'', pb_estimatedDelivery = NoDate \<rparr>"

definition bidOf :: "oid \<Rightarrow> oid \<Rightarrow> bid_status \<Rightarrow> bid" where
  \<comment> \<open>the bid document that \<open>offer\<close> creates for a developer, with a given status\<close>
  "bidOf nid dev st =
     \<lparr> b_id = nid, projectId = 1, developerId = dev, bidAmount = 900,
       message = ''I can build this'', b_status = st, estimatedDelivery = None \<rparr>"

definition db0 :: db where
  \<comment> \<open>one open project of client 10, no bids\<close>
  "db0 = \<lparr> projects = [shop], bids = [] \<rparr>"

definition db3 :: db where
  \<comment> \<open>the project with three pending bids, of developers 20, 21 and 22\<close>
  "db3 = \<lparr> projects = [shop],
           bids = [bidOf 101 20 Pending, bidOf 102 21 Pending, bidOf 103 22 Pending] \<rparr>"

definition db_orphan :: db where
  \<comment> \<open>a bid whose project document is gone\<close>
  "db_orphan = \<lparr> projects = [], bids = [bidOf 101 20 Pending] \<rparr>"

definition db_awarded :: db where
  \<comment> \<open>\<open>db3\<close> after the owner accepted bid 101\<close>
  "db_awarded = \<lparr> projects = [shop\<lparr>p_status := In_progress, assignedTo := Some 20\<rparr>],
                  bids = [bidOf 101 20 Accepted, bidOf 102 21 Rejected, bidOf 103 22 Rejected] \<rparr>"

definition accept_twice :: "request list" where
  \<comment> \<open>two developers bid on the project; the owner accepts the first bid, then the second\<close>
  "accept_twice =
     [PlaceBid 20 offer 101, PlaceBid 21 offer 102,
      DecideBid 10 (Some 101) ''accepted'', DecideBid 10 (Some 102) ''accepted'']"

section \<open>Facts about the store operations\<close>

lemma find_updateOne_same:
  "(\<And>x. q x \<Longrightarrow> q (f x)) \<Longrightarrow> find q (updateOne q f xs) = map_option f (find q xs)"
  by (induction xs) auto

lemma find_updateOne_other:
  "(\<And>x. q' x \<Longrightarrow> \<not> q x \<and> \<not> q (f x)) \<Longrightarrow> find q (updateOne q' f xs) = find q xs"
  by (induction xs) auto

lemma find_map_pres:
  "(\<And>x. q (g x) = q x) \<Longrightarrow> find q (map g xs) = map_option g (find q xs)"
  by (induction xs) auto

lemma updateOne_idem:
  "(\<And>x. q x \<Longrightarrow> q (f x) \<and> f (f x) = f x) \<Longrightarrow>
   updateOne q f (updateOne q f xs) = updateOne q f xs"
  by (induction xs) auto

lemma length_updateOne: "length (updateOne q f xs) = length xs"
  by (induction xs) auto

lemma nth_updateOne_other:
  "k < length xs \<Longrightarrow> \<not> q (xs ! k) \<Longrightarrow> updateOne q f xs ! k = xs ! k"
proof (induction xs arbitrary: k)
  case Nil
  then show ?case by simp
next
  case (Cons x xs)
  then show ?case by (cases k) auto
qed

lemma find_Some_sat: "find q xs = Some x \<Longrightarrow> q x \<and> x \<in> set xs"
  by (induction xs) (auto split: if_splits)

lemma findBid_id: "findBid s i = Some b \<Longrightarrow> b_id b = i"
  unfolding findBid_def by (drule find_Some_sat) simp

lemma findProject_id: "findProject s i = Some p \<Longrightarrow> p_id p = i"
  unfolding findProject_def by (drule find_Some_sat) simp

lemma length_saveStatus: "length (saveStatus b st bs) = length bs"
  by (simp add: saveStatus_def length_updateOne)


lemma nth_saveStatus_other:
  "k < length bs \<Longrightarrow> b_id (bs ! k) \<noteq> b_id b \<Longrightarrow> saveStatus b st bs ! k = bs ! k"
  by (simp add: saveStatus_def nth_updateOne_other)


lemma rejectOthers_idem: "rejectOthers pid i (rejectOthers pid i bs) = rejectOthers pid i bs"
  by (induction bs) (auto simp: rejectOthers_def)

lemma find_saveStatus_same:
  assumes "findBid s i = Some b"
  shows "find (\<lambda>x. b_id x = i) (saveStatus b st (bids s)) = Some (b\<lparr>b_status := st\<rparr>)"
proof (cases "b_status b = st")
  case True
  with assms show ?thesis by (simp add: saveStatus_def findBid_def)
next
  case False
  have "find (\<lambda>x. b_id x = i) (updateOne (\<lambda>x. b_id x = i) (\<lambda>x. x\<lparr>b_status := st\<rparr>) (bids s))
      = map_option (\<lambda>x. x\<lparr>b_status := st\<rparr>) (find (\<lambda>x. b_id x = i) (bids s))"
    by (rule find_updateOne_same) simp
  with False assms findBid_id[OF assms] show ?thesis
    by (simp add: saveStatus_def findBid_def)
qed

lemma find_saveStatus_other:
  assumes "j \<noteq> b_id b"
  shows "find (\<lambda>x. b_id x = j) (saveStatus b st bs) = find (\<lambda>x. b_id x = j) bs"
proof (cases "b_status b = st")
  case True
  then show ?thesis by (simp add: saveStatus_def)
next
  case False
  from assms
  have "find (\<lambda>x. b_id x = j) (updateOne (\<lambda>x. b_id x = b_id b) (\<lambda>x. x\<lparr>b_status := st\<rparr>) bs)
      = find (\<lambda>x. b_id x = j) bs"
    by (intro find_updateOne_other) auto
  with False show ?thesis by (simp add: saveStatus_def)
qed

lemma find_rejectOthers:
  "find (\<lambda>x. b_id x = j) (rejectOthers pid i bs) =
     map_option (\<lambda>b. if projectId b = pid \<and> b_id b \<noteq> i \<and> b_status b = Pending
                     then b\<lparr>b_status := Rejected\<rparr> else b)
       (find (\<lambda>x. b_id x = j) bs)"
  unfolding rejectOthers_def by (rule find_map_pres) auto

lemma find_findByIdAndUpdate:
  "findProject s pid = Some p \<Longrightarrow>
   find (\<lambda>x. p_id x = pid) (findByIdAndUpdate pid dev (projects s)) =
     Some (p\<lparr>p_status := In_progress, assignedTo := Some dev\<rparr>)"
  unfolding findProject_def findByIdAndUpdate_def by (simp add: find_updateOne_same)

lemma findByIdAndUpdate_idem:
  "findByIdAndUpdate pid dev (findByIdAndUpdate pid dev ps) = findByIdAndUpdate pid dev ps"
  unfolding findByIdAndUpdate_def by (rule updateOne_idem) simp

lemma parseStatus_accepted: "parseStatus ''accepted'' = Some Accepted"
  by (simp add: parseStatus_def)

lemma parseStatus_rejected: "parseStatus ''rejected'' = Some Rejected"
  by (simp add: parseStatus_def)

lemma decideBid_owner:
  assumes "parseStatus st = Some status" "findBid s i = Some b"
    "findProject s (projectId b) = Some p" "createdBy p = user"
  shows "decideBid s user (Some i) st =
     (BidUpdated (b\<lparr>b_status := status\<rparr>),
      if status = Accepted
      then s\<lparr>projects := findByIdAndUpdate (projectId b) (developerId b) (projects s),
             bids := rejectOthers (projectId b) i (saveStatus b status (bids s))\<rparr>
      else s\<lparr>bids := saveStatus b status (bids s)\<rparr>)"
  using assms findBid_id[OF assms(2)] findProject_id[OF assms(3)]
  by (simp add: decideBid_def)

lemma decideBid_cases:
  "decideBid s user idp st = (out, s') \<Longrightarrow>
   (s' = s \<and> out \<in> {InvalidStatus, ServerError, BidNotFound, NotOwner}) \<or>
   (\<exists>status i b p. parseStatus st = Some status \<and> idp = Some i \<and> findBid s i = Some b \<and>
      findProject s (projectId b) = Some p \<and> createdBy p = user)"
  by (auto simp: decideBid_def split: option.splits if_splits)

section \<open>Rejecting a bid\<close>

text \<open>
  C7. When the owner of the project rejects a pending bid, the call succeeds, that bid's
  status becomes rejected, the project collection is left as it was (so the parent
  project keeps its status and its assignedTo), and every other bid document is left as
  it was.
\<close>

theorem decideBid_reject_frame:
  assumes "findBid s i = Some b" and "b_status b = Pending"
    and "findProject s (projectId b) = Some p" and "createdBy p = user"
    and "decideBid s user (Some i) ''rejected'' = (out, s')"
  shows "out = BidUpdated (b\<lparr>b_status := Rejected\<rparr>) \<and>
         findBid s' i = Some (b\<lparr>b_status := Rejected\<rparr>) \<and>
         projects s' = projects s \<and>
         length (bids s') = length (bids s) \<and>
         (\<forall>k < length (bids s). b_id (bids s ! k) \<noteq> i \<longrightarrow> bids s' ! k = bids s ! k) \<and>
         (\<forall>j. j \<noteq> i \<longrightarrow> findBid s' j = findBid s j)"
proof -
  have id: "b_id b = i" by (rule findBid_id[OF assms(1)])
  from decideBid_owner[OF parseStatus_rejected assms(1,3,4)] assms(5)
  have out: "out = BidUpdated (b\<lparr>b_status := Rejected\<rparr>)"
    and s': "s' = s\<lparr>bids := saveStatus b Rejected (bids s)\<rparr>"
    by simp_all
  have "findBid s' i = Some (b\<lparr>b_status := Rejected\<rparr>)"
    using find_saveStatus_same[OF assms(1)] by (simp add: s' findBid_def)
  moreover have "\<forall>k < length (bids s). b_id (bids s ! k) \<noteq> i \<longrightarrow> bids s' ! k = bids s ! k"
    by (simp add: s' id nth_saveStatus_other)
  moreover have "\<forall>j. j \<noteq> i \<longrightarrow> findBid s' j = findBid s j"
    by (simp add: s' id findBid_def find_saveStatus_other)
  ultimately show ?thesis
    by (simp add: out s' length_saveStatus)
qed

theorem decideBid_reject_frame_witness:
  "findBid db3 102 = Some (bidOf 102 21 Pending) \<and>
   findProject db3 1 = Some shop \<and> createdBy shop = 10 \<and>
   fst (decideBid db3 10 (Some 102) ''rejected'') = BidUpdated (bidOf 102 21 Rejected) \<and>
   projects (snd (decideBid db3 10 (Some 102) ''rejected'')) = [shop] \<and>
   bids (snd (decideBid db3 10 (Some 102) ''rejected'')) =
     [bidOf 101 20 Pending, bidOf 102 21 Rejected, bidOf 103 22 Pending]"
proof -
  have h1: "findBid db3 102 = Some (bidOf 102 21 Pending)"
    by (simp add: findBid_def db3_def bidOf_def)
  have h2: "b_status (bidOf 102 21 Pending) = Pending"
    by (simp add: bidOf_def)
  have h3: "findProject db3 (projectId (bidOf 102 21 Pending)) = Some shop"
    by (simp add: findProject_def db3_def bidOf_def shop_def)
  have h4: "createdBy shop = 10"
    by (simp add: shop_def)
  have h5: "decideBid db3 10 (Some 102) ''rejected'' =
      (fst (decideBid db3 10 (Some 102) ''rejected''), snd (decideBid db3 10 (Some 102) ''rejected''))"
    by simp
  have ev: "bids (snd (decideBid db3 10 (Some 102) ''rejected'')) =
     [bidOf 101 20 Pending, bidOf 102 21 Rejected, bidOf 103 22 Pending]"
    by (simp add: decideBid_def parseStatus_def findBid_def findProject_def db3_def bidOf_def
        shop_def saveStatus_def)
  from decideBid_reject_frame[OF h1 h2 h3 h4 h5] h1 h3 h4 ev show ?thesis
    by (simp add: bidOf_def db3_def)
qed

section \<open>Accepting a bid\<close>

text \<open>
  C3. Project P is owned by the requester and B1, B2, B3 are pending bids on it. When
  the owner accepts B1, the call succeeds; afterwards B1 is accepted, B2 and B3 are
  rejected, P is in progress and assigned to B1's developer; and every other bid that
  was already accepted or rejected before the call is left as it was.
\<close>

theorem decideBid_accept_cascade:
  assumes "findBid s i1 = Some b1" and "findBid s i2 = Some b2" and "findBid s i3 = Some b3"
    and "i2 \<noteq> i1" and "i3 \<noteq> i1"
    and "projectId b1 = pid" and "projectId b2 = pid" and "projectId b3 = pid"
    and "b_status b1 = Pending" and "b_status b2 = Pending" and "b_status b3 = Pending"
    and "findProject s pid = Some p" and "createdBy p = user"
    and "decideBid s user (Some i1) ''accepted'' = (out, s')"
  shows "out = BidUpdated (b1\<lparr>b_status := Accepted\<rparr>) \<and>
         findBid s' i1 = Some (b1\<lparr>b_status := Accepted\<rparr>) \<and>
         findBid s' i2 = Some (b2\<lparr>b_status := Rejected\<rparr>) \<and>
         findBid s' i3 = Some (b3\<lparr>b_status := Rejected\<rparr>) \<and>
         findProject s' pid = Some (p\<lparr>p_status := In_progress, assignedTo := Some (developerId b1)\<rparr>) \<and>
         (\<forall>j b. findBid s j = Some b \<and> j \<noteq> i1 \<and> b_status b \<noteq> Pending \<longrightarrow> findBid s' j = Some b)"
proof -
  have id: "b_id b1 = i1" by (rule findBid_id[OF assms(1)])
  have prj: "findProject s (projectId b1) = Some p" using assms(6,12) by simp
  from decideBid_owner[OF parseStatus_accepted assms(1) prj assms(13)] assms(14) assms(6)
  have out: "out = BidUpdated (b1\<lparr>b_status := Accepted\<rparr>)"
    and s': "s' = s\<lparr>projects := findByIdAndUpdate pid (developerId b1) (projects s),
                   bids := rejectOthers pid i1 (saveStatus b1 Accepted (bids s))\<rparr>"
    by simp_all
  have other: "findBid s' j =
      map_option (\<lambda>b. if projectId b = pid \<and> b_id b \<noteq> i1 \<and> b_status b = Pending
                      then b\<lparr>b_status := Rejected\<rparr> else b) (findBid s j)"
    if "j \<noteq> i1" for j
    using that by (simp add: s' findBid_def find_rejectOthers find_saveStatus_other id)
  have "findBid s' i1 = Some (b1\<lparr>b_status := Accepted\<rparr>)"
    using find_saveStatus_same[OF assms(1)] id
    by (simp add: s' findBid_def find_rejectOthers)
  moreover have "findBid s' i2 = Some (b2\<lparr>b_status := Rejected\<rparr>)"
    using other[OF assms(4)] assms(2,7,10) findBid_id[OF assms(2)] assms(4) by simp
  moreover have "findBid s' i3 = Some (b3\<lparr>b_status := Rejected\<rparr>)"
    using other[OF assms(5)] assms(3,8,11) findBid_id[OF assms(3)] assms(5) by simp
  moreover have "findProject s' pid =
      Some (p\<lparr>p_status := In_progress, assignedTo := Some (developerId b1)\<rparr>)"
    using find_findByIdAndUpdate[OF assms(12)] by (simp add: s' findProject_def)
  moreover have "\<forall>j b. findBid s j = Some b \<and> j \<noteq> i1 \<and> b_status b \<noteq> Pending \<longrightarrow> findBid s' j = Some b"
    using other by simp
  ultimately show ?thesis using out by simp
qed

theorem decideBid_accept_cascade_witness:
  "findBid db3 101 = Some (bidOf 101 20 Pending) \<and>
   findBid db3 102 = Some (bidOf 102 21 Pending) \<and>
   findBid db3 103 = Some (bidOf 103 22 Pending) \<and>
   findProject db3 1 = Some shop \<and> createdBy shop = 10 \<and>
   fst (decideBid db3 10 (Some 101) ''accepted'') = BidUpdated (bidOf 101 20 Accepted) \<and>
   findBid (snd (decideBid db3 10 (Some 101) ''accepted'')) 101 = Some (bidOf 101 20 Accepted) \<and>
   findBid (snd (decideBid db3 10 (Some 101) ''accepted'')) 102 = Some (bidOf 102 21 Rejected) \<and>
   findBid (snd (decideBid db3 10 (Some 101) ''accepted'')) 103 = Some (bidOf 103 22 Rejected) \<and>
   findProject (snd (decideBid db3 10 (Some 101) ''accepted'')) 1 =
     Some (shop\<lparr>p_status := In_progress, assignedTo := Some 20\<rparr>)"
proof -
  have h1: "findBid db3 101 = Some (bidOf 101 20 Pending)"
    and h2: "findBid db3 102 = Some (bidOf 102 21 Pending)"
    and h3: "findBid db3 103 = Some (bidOf 103 22 Pending)"
    by (simp_all add: findBid_def db3_def bidOf_def)
  have n2: "(102::nat) \<noteq> 101" and n3: "(103::nat) \<noteq> 101" by simp_all
  have p1: "projectId (bidOf 101 20 Pending) = 1" and p2: "projectId (bidOf 102 21 Pending) = 1"
    and p3: "projectId (bidOf 103 22 Pending) = 1"
    by (simp_all add: bidOf_def)
  have s1: "b_status (bidOf 101 20 Pending) = Pending" and s2: "b_status (bidOf 102 21 Pending) = Pending"
    and s3: "b_status (bidOf 103 22 Pending) = Pending"
    by (simp_all add: bidOf_def)
  have h4: "findProject db3 1 = Some shop"
    by (simp add: findProject_def db3_def shop_def)
  have h5: "createdBy shop = 10" by (simp add: shop_def)
  have h6: "decideBid db3 10 (Some 101) ''accepted'' =
      (fst (decideBid db3 10 (Some 101) ''accepted''), snd (decideBid db3 10 (Some 101) ''accepted''))"
    by simp
  from decideBid_accept_cascade[OF h1 h2 h3 n2 n3 p1 p2 p3 s1 s2 s3 h4 h5 h6] h1 h2 h3 h4 h5
  show ?thesis by (simp add: bidOf_def)
qed

text \<open>
  C9. Accepting an accepted bid again changes nothing: if the owner's
  \<open>decideBid(bid, accept)\<close> succeeded and left the store in state \<open>s'\<close>, the same call
  on \<open>s'\<close> succeeds with the same response and leaves the store in state \<open>s'\<close>: the
  bid, the project and all sibling bids are as they were.
\<close>

theorem decideBid_accept_idempotent:
  assumes "decideBid s user idp ''accepted'' = (BidUpdated b', s')"
  shows "decideBid s' user idp ''accepted'' = (BidUpdated b', s')"
proof -
  from decideBid_cases[OF assms] obtain status i b p where
    st: "parseStatus ''accepted'' = Some status" and idp: "idp = Some i"
    and fb: "findBid s i = Some b" and fp: "findProject s (projectId b) = Some p"
    and own: "createdBy p = user"
    by auto
  have status: "status = Accepted" using st by (simp add: parseStatus_def)
  have id: "b_id b = i" by (rule findBid_id[OF fb])
  from decideBid_owner[OF st fb fp own] assms idp status
  have b': "b' = b\<lparr>b_status := Accepted\<rparr>"
    and s': "s' = s\<lparr>projects := findByIdAndUpdate (projectId b) (developerId b) (projects s),
                   bids := rejectOthers (projectId b) i (saveStatus b Accepted (bids s))\<rparr>"
    by simp_all
  have fb': "findBid s' i = Some b'"
    using find_saveStatus_same[OF fb] id by (simp add: s' b' findBid_def find_rejectOthers)
  have fp': "findProject s' (projectId b') =
      Some (p\<lparr>p_status := In_progress, assignedTo := Some (developerId b)\<rparr>)"
    using find_findByIdAndUpdate[OF fp] by (simp add: s' b' findProject_def)
  have own': "createdBy (p\<lparr>p_status := In_progress, assignedTo := Some (developerId b)\<rparr>) = user"
    using own by simp
  have same_bids: "rejectOthers (projectId b') i (saveStatus b' Accepted (bids s')) = bids s'"
    by (simp add: saveStatus_def b' s' rejectOthers_idem)
  have same_projects: "findByIdAndUpdate (projectId b') (developerId b') (projects s') = projects s'"
    by (simp add: b' s' findByIdAndUpdate_idem)
  from decideBid_owner[OF parseStatus_accepted fb' fp' own'] same_bids same_projects
  show ?thesis by (simp add: idp b')
qed

theorem decideBid_accept_idempotent_witness:
  "decideBid db3 10 (Some 101) ''accepted'' =
     (BidUpdated (bidOf 101 20 Accepted),
      \<lparr>projects = [shop\<lparr>p_status := In_progress, assignedTo := Some 20\<rparr>],
       bids = [bidOf 101 20 Accepted, bidOf 102 21 Rejected, bidOf 103 22 Rejected]\<rparr>) \<and>
   decideBid \<lparr>projects = [shop\<lparr>p_status := In_progress, assignedTo := Some 20\<rparr>],
       bids = [bidOf 101 20 Accepted, bidOf 102 21 Rejected, bidOf 103 22 Rejected]\<rparr>
     10 (Some 101) ''accepted'' =
     (BidUpdated (bidOf 101 20 Accepted),
      \<lparr>projects = [shop\<lparr>p_status := In_progress, assignedTo := Some 20\<rparr>],
       bids = [bidOf 101 20 Accepted, bidOf 102 21 Rejected, bidOf 103 22 Rejected]\<rparr>)"
proof -
  have first: "decideBid db3 10 (Some 101) ''accepted'' =
     (BidUpdated (bidOf 101 20 Accepted),
      \<lparr>projects = [shop\<lparr>p_status := In_progress, assignedTo := Some 20\<rparr>],
       bids = [bidOf 101 20 Accepted, bidOf 102 21 Rejected, bidOf 103 22 Rejected]\<rparr>)"
    by (simp add: decideBid_def parseStatus_def findBid_def findProject_def db3_def bidOf_def
        shop_def saveStatus_def rejectOthers_def findByIdAndUpdate_def)
  from first decideBid_accept_idempotent[OF first] show ?thesis by simp
qed

section \<open>Terminal bids\<close>








section \<open>Placing a bid\<close>

lemma validateBid_fields:
  "validateBid body = [] \<Longrightarrow> \<exists>pid amt. pb_projectId body = Some pid \<and> pb_bidAmount body = Some amt"
  by (auto simp: validateBid_def split: option.splits if_splits)

lemma placeBid_failure_unchanged:
  "(\<forall>b. fst (placeBid s user body nid) \<noteq> BidPlaced b) \<Longrightarrow> snd (placeBid s user body nid) = s"
  by (auto simp: placeBid_def split: option.splits if_splits)

text \<open>
  C8, as the code has it. For a request that passes validation: placeBid fails with
  NotFound (404) when the project does not exist; with InvalidState (400, project not
  open) when the project exists and its status is not open; with Conflict (409) when the
  project exists, is open, and a bid of the same developer on it already exists. Whenever
  the call does not answer 201 the store is unchanged. When it answers 201 exactly one
  bid was appended, with status pending, for that project and developer, and nothing
  else changed; and it does answer 201 when the project is open, the developer has no
  bid on it and the new document's id is not in use.
\<close>

theorem placeBid_outcomes:
  assumes "validateBid body = []" and "pb_projectId body = Some pid"
    and "placeBid s user body nid = (out, s')"
  shows "(findProject s pid = None \<longrightarrow> out = ProjectNotFound \<and> http_code out = 404) \<and>
         (\<forall>p. findProject s pid = Some p \<and> p_status p \<noteq> Open \<longrightarrow>
            out = ProjectNotOpen \<and> http_code out = 400) \<and>
         (\<forall>p e. findProject s pid = Some p \<and> p_status p = Open \<and>
            findOneBid s pid user = Some e \<longrightarrow> out = DuplicateBid \<and> http_code out = 409) \<and>
         ((\<forall>b. out \<noteq> BidPlaced b) \<longrightarrow> s' = s) \<and>
         (\<forall>b. out = BidPlaced b \<longrightarrow>
            s' = s\<lparr>bids := bids s @ [b]\<rparr> \<and> b_status b = Pending \<and> b_id b = nid \<and>
            projectId b = pid \<and> developerId b = user) \<and>
         (\<forall>p. findProject s pid = Some p \<and> p_status p = Open \<and> findOneBid s pid user = None \<and>
            nid \<notin> set (map b_id (bids s)) \<longrightarrow> (\<exists>b. out = BidPlaced b))"
proof -
  from validateBid_fields[OF assms(1)] obtain amt where amt: "pb_bidAmount body = Some amt"
    by auto
  have nf: "findProject s pid = None \<longrightarrow> out = ProjectNotFound \<and> http_code out = 404"
    using assms by (auto simp: placeBid_def)
  have no: "\<forall>p. findProject s pid = Some p \<and> p_status p \<noteq> Open \<longrightarrow>
      out = ProjectNotOpen \<and> http_code out = 400"
    using assms by (auto simp: placeBid_def)
  have dup: "\<forall>p e. findProject s pid = Some p \<and> p_status p = Open \<and>
      findOneBid s pid user = Some e \<longrightarrow> out = DuplicateBid \<and> http_code out = 409"
    using assms by (auto simp: placeBid_def)
  have fail: "(\<forall>b. out \<noteq> BidPlaced b) \<longrightarrow> s' = s"
    using placeBid_failure_unchanged[of s user body nid] assms(3) by simp
  have ok: "\<forall>b. out = BidPlaced b \<longrightarrow>
      s' = s\<lparr>bids := bids s @ [b]\<rparr> \<and> b_status b = Pending \<and> b_id b = nid \<and>
      projectId b = pid \<and> developerId b = user"
    using assms amt
    by (auto simp: placeBid_def newBid_def split: option.splits if_splits)
  have live: "\<forall>p. findProject s pid = Some p \<and> p_status p = Open \<and>
      findOneBid s pid user = None \<and> nid \<notin> set (map b_id (bids s)) \<longrightarrow> (\<exists>b. out = BidPlaced b)"
    using assms amt by (auto simp: placeBid_def)
  from nf no dup fail ok live show ?thesis by blast
qed

lemma validateBid_offer: "validateBid offer = []"
  by (simp add: validateBid_def offer_def trim_def is_space_def)

theorem placeBid_outcomes_witness:
  "validateBid offer = [] \<and>
   fst (placeBid \<lparr>projects = [], bids = []\<rparr> 20 offer 101) = ProjectNotFound \<and>
   snd (placeBid \<lparr>projects = [], bids = []\<rparr> 20 offer 101) = \<lparr>projects = [], bids = []\<rparr> \<and>
   fst (placeBid db_awarded 23 offer 104) = ProjectNotOpen \<and>
   snd (placeBid db_awarded 23 offer 104) = db_awarded \<and>
   fst (placeBid db3 20 offer 104) = DuplicateBid \<and>
   snd (placeBid db3 20 offer 104) = db3 \<and>
   fst (placeBid db3 23 offer 104) = BidPlaced (bidOf 104 23 Pending) \<and>
   snd (placeBid db3 23 offer 104) = db3\<lparr>bids := bids db3 @ [bidOf 104 23 Pending]\<rparr>"
proof -
  have v: "validateBid offer = []" by (rule validateBid_offer)
  have p: "pb_projectId offer = Some 1" by (simp add: offer_def)
  have pair: "placeBid s user offer nid =
      (fst (placeBid s user offer nid), snd (placeBid s user offer nid))" for s user nid
    by simp
  have a: "findProject \<lparr>projects = [], bids = []\<rparr> 1 = None"
    by (simp add: findProject_def)
  have b: "findProject db_awarded 1 = Some (shop\<lparr>p_status := In_progress, assignedTo := Some 20\<rparr>)"
    by (simp add: findProject_def db_awarded_def shop_def)
  have c: "findProject db3 1 = Some shop" and c': "p_status shop = Open"
    and c'': "findOneBid db3 1 20 = Some (bidOf 101 20 Pending)"
    by (simp_all add: findProject_def findOneBid_def db3_def shop_def bidOf_def)
  have d: "findOneBid db3 1 23 = None" and d': "104 \<notin> set (map b_id (bids db3))"
    by (simp_all add: findOneBid_def db3_def bidOf_def)
  note t = placeBid_outcomes[OF v p pair]
  have r1: "fst (placeBid \<lparr>projects = [], bids = []\<rparr> 20 offer 101) = ProjectNotFound \<and>
      snd (placeBid \<lparr>projects = [], bids = []\<rparr> 20 offer 101) = \<lparr>projects = [], bids = []\<rparr>"
    using t[of "\<lparr>projects = [], bids = []\<rparr>" 20 101] a by simp
  have r2: "fst (placeBid db_awarded 23 offer 104) = ProjectNotOpen \<and>
      snd (placeBid db_awarded 23 offer 104) = db_awarded"
    using t[of db_awarded 23 104] b by simp
  have r3: "fst (placeBid db3 20 offer 104) = DuplicateBid \<and>
      snd (placeBid db3 20 offer 104) = db3"
    using t[of db3 20 104] c c' c'' by simp
  from t[of db3 23 104] c c' d d'
  obtain nb where nb: "fst (placeBid db3 23 offer 104) = BidPlaced nb" by blast
  have "fst (placeBid db3 23 offer 104) = BidPlaced (bidOf 104 23 Pending)"
    by (simp add: placeBid_def validateBid_def trim_def is_space_def findProject_def
        findOneBid_def db3_def shop_def bidOf_def newBid_def offer_def)
  with nb have nb': "nb = bidOf 104 23 Pending" by simp
  have r4: "fst (placeBid db3 23 offer 104) = BidPlaced (bidOf 104 23 Pending) \<and>
      snd (placeBid db3 23 offer 104) = db3\<lparr>bids := bids db3 @ [bidOf 104 23 Pending]\<rparr>"
    using t[of db3 23 104] nb nb' by simp
  from v r1 r2 r3 r4 show ?thesis by simp
qed

text \<open>
  C8 as stated fails. Developer 20 holds a bid on the project and the project is in
  progress; a valid second bid of developer 20 is answered with 400 (project not
  open), not with 409.
\<close>

theorem duplicate_bid_on_closed_project:
  "snd (run db0 [PlaceBid 20 offer 101, PlaceBid 21 offer 102, PlaceBid 22 offer 103,
      DecideBid 10 (Some 101) ''accepted'']) = db_awarded \<and>
   findOneBid db_awarded 1 20 = Some (bidOf 101 20 Accepted) \<and>
   validateBid offer = [] \<and>
   placeBid db_awarded 20 offer 104 = (ProjectNotOpen, db_awarded) \<and>
   http_code (fst (placeBid db_awarded 20 offer 104)) = 400"
  by (simp add: placeBid_def validateBid_def trim_def is_space_def offer_def newBid_def
      findOneBid_def decideBid_def parseStatus_def findBid_def findProject_def db0_def
      db_awarded_def bidOf_def shop_def saveStatus_def rejectOthers_def findByIdAndUpdate_def)

text \<open>
  C10. The project-status check comes before the duplicate-bid check. When the
  developer already holds a bid on the project and the project's status is not open,
  the call answers 400 and never 409, and leaves the store unchanged; for a request that
  passes validation the answer is the project-not-open one. A 409 is answered only when
  the project exists and is open.
\<close>

theorem placeBid_status_check_first:
  "(pb_projectId body = Some pid \<and> findProject s pid = Some p \<and> p_status p \<noteq> Open \<and>
      findOneBid s pid user = Some e \<longrightarrow>
      http_code (fst (placeBid s user body nid)) = 400 \<and>
      fst (placeBid s user body nid) \<noteq> DuplicateBid \<and>
      snd (placeBid s user body nid) = s \<and>
      (validateBid body = [] \<longrightarrow> fst (placeBid s user body nid) = ProjectNotOpen)) \<and>
   (fst (placeBid s user body nid) = DuplicateBid \<longrightarrow>
      (\<exists>pid p. pb_projectId body = Some pid \<and> findProject s pid = Some p \<and> p_status p = Open))"
  by (auto simp: placeBid_def split: option.splits if_splits)

theorem placeBid_status_check_first_witness:
  "findOneBid db_awarded 1 20 = Some (bidOf 101 20 Accepted) \<and>
   findProject db_awarded 1 = Some (shop\<lparr>p_status := In_progress, assignedTo := Some 20\<rparr>) \<and>
   validateBid offer = [] \<and>
   fst (placeBid db_awarded 20 offer 104) = ProjectNotOpen \<and>
   http_code (fst (placeBid db_awarded 20 offer 104)) = 400 \<and>
   fst (placeBid db3 20 offer 104) = DuplicateBid \<and>
   findProject db3 1 = Some shop \<and> p_status shop = Open"
proof -
  have h1: "pb_projectId offer = Some 1" by (simp add: offer_def)
  have h2: "findProject db_awarded 1 = Some (shop\<lparr>p_status := In_progress, assignedTo := Some 20\<rparr>)"
    by (simp add: findProject_def db_awarded_def shop_def)
  have h3: "p_status (shop\<lparr>p_status := In_progress, assignedTo := Some 20\<rparr>) \<noteq> Open" by simp
  have h4: "findOneBid db_awarded 1 20 = Some (bidOf 101 20 Accepted)"
    by (simp add: findOneBid_def db_awarded_def bidOf_def)
  have h5: "validateBid offer = []" by (rule validateBid_offer)
  have h6: "fst (placeBid db3 20 offer 104) = DuplicateBid"
    by (simp add: placeBid_def validateBid_def trim_def is_space_def findProject_def
        findOneBid_def db3_def shop_def bidOf_def offer_def)
  have h7: "findProject db3 1 = Some shop \<and> p_status shop = Open"
    by (simp add: findProject_def db3_def shop_def)
  from placeBid_status_check_first[of offer 1 db_awarded
      "shop\<lparr>p_status := In_progress, assignedTo := Some 20\<rparr>" 20 "bidOf 101 20 Accepted" 104]
    h1 h2 h3 h4 h5 h6 h7
  show ?thesis by simp
qed

section \<open>Who may decide, and on what\<close>

lemma decideBid_not_owner:
  assumes "parseStatus st = Some status" and "findBid s i = Some b"
    and "findProject s (projectId b) = Some p" and "createdBy p \<noteq> user"
  shows "decideBid s user (Some i) st = (NotOwner, s)"
  using assms by (simp add: decideBid_def)

lemma decideBid_failure_unchanged:
  "(\<forall>b. fst (decideBid s user idp st) \<noteq> BidUpdated b) \<Longrightarrow> snd (decideBid s user idp st) = s"
  by (auto simp: decideBid_def split: option.splits if_splits)

text \<open>
  C6 at a bid whose project document does not exist: the status value is valid and the
  bid exists, and the handler answers 500, not 403. The store is unchanged.
\<close>

theorem decideBid_orphan_bid:
  "findBid db_orphan 101 = Some (bidOf 101 20 Pending) \<and>
   findProject db_orphan (projectId (bidOf 101 20 Pending)) = None \<and>
   decideBid db_orphan 10 (Some 101) ''accepted'' = (ServerError, db_orphan) \<and>
   decideBid db_orphan 10 (Some 101) ''rejected'' = (ServerError, db_orphan) \<and>
   http_code (fst (decideBid db_orphan 10 (Some 101) ''accepted'')) = 500"
  by (simp add: decideBid_def parseStatus_def findBid_def findProject_def db_orphan_def bidOf_def)

section \<open>Accepting a second bid\<close>

lemma set_updateOne: "set (updateOne q f xs) \<subseteq> set xs \<union> f ` {x \<in> set xs. q x}"
  by (induction xs) auto

text \<open>
  What does hold of a single acceptance: when no other bid of the project is accepted
  before the call, none is afterwards. The history \<open>accept_twice\<close> is outside this
  case.
\<close>

lemma decideBid_accept_first:
  assumes "findBid s i = Some b" and "findProject s (projectId b) = Some p"
    and "createdBy p = user"
    and "\<forall>x \<in> set (bids s). projectId x = projectId b \<and> b_status x = Accepted \<longrightarrow> b_id x = i"
    and "decideBid s user (Some i) ''accepted'' = (out, s')"
  shows "\<forall>x \<in> set (bids s'). projectId x = projectId b \<and> b_status x = Accepted \<longrightarrow> b_id x = i"
proof -
  have id: "b_id b = i" by (rule findBid_id[OF assms(1)])
  from decideBid_owner[OF parseStatus_accepted assms(1,2,3)] assms(5)
  have s': "bids s' = rejectOthers (projectId b) i (saveStatus b Accepted (bids s))"
    by auto
  have saved: "projectId y = projectId b \<and> b_status y = Accepted \<longrightarrow> b_id y = i"
    if "y \<in> set (saveStatus b Accepted (bids s))" for y
  proof (cases "b_status b = Accepted")
    case True
    with that assms(4) show ?thesis by (simp add: saveStatus_def)
  next
    case False
    with that set_updateOne[of "\<lambda>x. b_id x = b_id b" "\<lambda>x. x\<lparr>b_status := Accepted\<rparr>" "bids s"]
    have "y \<in> set (bids s) \<or> (\<exists>x \<in> set (bids s). b_id x = b_id b \<and> y = x\<lparr>b_status := Accepted\<rparr>)"
      by (auto simp: saveStatus_def)
    with assms(4) id show ?thesis by auto
  qed
  show ?thesis
  proof
    fix x assume "x \<in> set (bids s')"
    then obtain y where y: "y \<in> set (saveStatus b Accepted (bids s))"
      and x: "x = (if projectId y = projectId b \<and> b_id y \<noteq> i \<and> b_status y = Pending
                   then y\<lparr>b_status := Rejected\<rparr> else y)"
      by (auto simp: s' rejectOthers_def)
    from saved[OF y] x
    show "projectId x = projectId b \<and> b_status x = Accepted \<longrightarrow> b_id x = i"
      by (auto split: if_splits)
  qed
qed

text \<open>
  C1 at the history \<open>accept_twice\<close>: all four requests succeed, and afterwards the
  project has two accepted bids.
\<close>

theorem accept_twice_two_accepted:
  "map http_code (fst (run db0 accept_twice)) = [201, 201, 200, 200] \<and>
   acceptedBids (snd (run db0 accept_twice)) 1 = [bidOf 101 20 Accepted, bidOf 102 21 Accepted]"
  by (simp add: accept_twice_def acceptedBids_def placeBid_def validateBid_def trim_def
      is_space_def offer_def newBid_def findOneBid_def decideBid_def parseStatus_def
      findBid_def findProject_def db0_def bidOf_def shop_def saveStatus_def rejectOthers_def
      findByIdAndUpdate_def)

text \<open>
  C2 at the history \<open>accept_twice\<close>: afterwards bid 101, of developer 20, is accepted
  while its project is assigned to developer 21.
\<close>

theorem accept_twice_assignment:
  "map_option b_status (findBid (snd (run db0 accept_twice)) 101) = Some Accepted \<and>
   map_option developerId (findBid (snd (run db0 accept_twice)) 101) = Some 20 \<and>
   map_option projectId (findBid (snd (run db0 accept_twice)) 101) = Some 1 \<and>
   map_option p_status (findProject (snd (run db0 accept_twice)) 1) = Some In_progress \<and>
   map_option assignedTo (findProject (snd (run db0 accept_twice)) 1) = Some (Some 21)"
  by (simp add: accept_twice_def placeBid_def validateBid_def trim_def
      is_space_def offer_def newBid_def findOneBid_def decideBid_def parseStatus_def
      findBid_def findProject_def db0_def bidOf_def shop_def saveStatus_def rejectOthers_def
      findByIdAndUpdate_def)

section \<open>Two acceptances in flight\<close>

lemma steps_Finished: "steps n s (Finished out) = (Finished out, s)"
  by (induction n) auto

text \<open>
  A request that runs alone performs its store operations one after the other; that is
  the handler \<open>decideBid\<close>.
\<close>

lemma steps_decideBid:
  "steps 5 s (start user idp st) =
     (Finished (fst (decideBid s user idp st)), snd (decideBid s user idp st))"
proof -
  have five: "(5::nat) = Suc (Suc (Suc (Suc (Suc 0))))" by simp
  show ?thesis
    unfolding five
    by (auto simp: start_def decideBid_def steps_Finished dest: findBid_id findProject_id
        split: option.splits)
qed

text \<open>
  With a second request in flight, the operations of the two are interleaved. The
  following facts say what one request's operation leaves untouched for the other.
\<close>

lemma find_updateOne_keeps:
  assumes "\<And>x. q (f x) = q x" and "\<And>x. h (f x) = h x"
  shows "map_option h (find q (updateOne q' f xs)) = map_option h (find q xs)"
  using assms by (induction xs) auto

lemma step_projects_createdBy:
  "step s t = (t', s') \<Longrightarrow>
   map_option createdBy (findProject s' pid) = map_option createdBy (findProject s pid)"
proof (cases t)
  case (Await_findByIdAndUpdate b p)
  assume "step s t = (t', s')"
  with Await_findByIdAndUpdate
  have s': "projects s' = findByIdAndUpdate (p_id p) (developerId b) (projects s)" by auto
  show ?thesis
    unfolding findProject_def s' findByIdAndUpdate_def
    by (rule find_updateOne_keeps) simp_all
qed (auto simp: findProject_def split: option.splits if_splits)

lemma find_saveStatus_fields:
  "map_option projectId (find (\<lambda>x. b_id x = i) (saveStatus b st bs)) =
   map_option projectId (find (\<lambda>x. b_id x = i) bs)"
proof (cases "b_status b = st")
  case True
  then show ?thesis by (simp add: saveStatus_def)
next
  case False
  have "map_option projectId
      (find (\<lambda>x. b_id x = i) (updateOne (\<lambda>x. b_id x = b_id b) (\<lambda>x. x\<lparr>b_status := st\<rparr>) bs)) =
     map_option projectId (find (\<lambda>x. b_id x = i) bs)"
    by (rule find_updateOne_keeps) simp_all
  with False show ?thesis by (simp add: saveStatus_def)
qed

lemma step_bid_project:
  "step s t = (t', s') \<Longrightarrow>
   map_option projectId (findBid s' i) = map_option projectId (findBid s i)"
proof (cases t)
  case (Await_save st b p)
  assume "step s t = (t', s')"
  with Await_save have "bids s' = saveStatus b st (bids s)" by (auto split: if_splits)
  then show ?thesis by (simp add: findBid_def find_saveStatus_fields)
next
  case (Await_updateMany b p)
  assume "step s t = (t', s')"
  with Await_updateMany have "bids s' = rejectOthers (p_id p) (b_id b) (bids s)" by auto
  then show ?thesis
    by (cases "find (\<lambda>x. b_id x = i) (bids s)") (simp_all add: findBid_def find_rejectOthers)
qed (auto simp: findBid_def split: option.splits if_splits)

lemma step_owned:
  assumes "step s t = (t', s')" and "owned s user i"
  shows "owned s' user i"
proof -
  from assms(2) obtain b p where fb: "findBid s i = Some b"
    and fp: "findProject s (projectId b) = Some p" and own: "createdBy p = user"
    by (auto simp: owned_def split: option.splits)
  from step_bid_project[OF assms(1), of i] fb
  obtain b' where fb': "findBid s' i = Some b'" and pr: "projectId b' = projectId b"
    by auto
  from step_projects_createdBy[OF assms(1), of "projectId b"] fp own
  obtain p' where "findProject s' (projectId b) = Some p'" and "createdBy p' = user"
    by auto
  with fb' pr show ?thesis by (simp add: owned_def)
qed

lemma step_accepted_stays:
  assumes "step s t = (t', s')" and "stored s i = Some Accepted"
    and "accepting s user j t" and "j \<noteq> i"
  shows "stored s' i = Some Accepted"
proof (cases t)
  case (Await_save st b p)
  with assms(1) have s': "bids s' = saveStatus b st (bids s)" by (auto split: if_splits)
  from Await_save assms(3,4) have "i \<noteq> b_id b" by (simp add: loaded_ok_def)
  with s' assms(2) show ?thesis by (simp add: stored_def findBid_def find_saveStatus_other)
next
  case (Await_updateMany b p)
  with assms(1) have s': "bids s' = rejectOthers (p_id p) (b_id b) (bids s)" by auto
  from assms(2) obtain z where "find (\<lambda>x. b_id x = i) (bids s) = Some z"
    and "b_status z = Accepted"
    by (auto simp: stored_def findBid_def)
  then show ?thesis by (simp add: stored_def findBid_def s' find_rejectOthers)
qed (use assms(1,2) in \<open>auto simp: stored_def findBid_def split: option.splits if_splits\<close>)

lemma step_other_accepting:
  assumes "step s t = (t', s')" and "accepting s user j t" and "j \<noteq> i"
    and "accepting s user i u"
  shows "accepting s' user i u"
proof -
  have keep: "stored s i = Some Accepted \<Longrightarrow> stored s' i = Some Accepted"
    by (rule step_accepted_stays[OF assms(1) _ assms(2,3)])
  have ok: "loaded_ok s i b \<Longrightarrow> loaded_ok s' i b" for b
    using keep step_bid_project[OF assms(1), of i] by (simp add: loaded_ok_def)
  from assms(4) show ?thesis
    by (cases u) (auto simp: keep ok)
qed

lemma step_own_accepting:
  assumes "step s t = (t', s')" and "accepting s user i t" and "owned s user i"
  shows "accepting s' user i t'"
proof -
  from assms(3) obtain b0 p0 where fb: "findBid s i = Some b0"
    and fp: "findProject s (projectId b0) = Some p0" and own: "createdBy p0 = user"
    by (auto simp: owned_def split: option.splits)
  show ?thesis
  proof (cases t)
    case (Await_findById u j st)
    with assms(1,2) fb findBid_id[OF fb] show ?thesis
      by (auto simp: loaded_ok_def stored_def)
  next
    case (Await_populate u st b)
    with assms(2) have "projectId b = projectId b0" using fb by (simp add: loaded_ok_def)
    with Await_populate assms(1,2) fp own show ?thesis by auto
  next
    case (Await_save st b p)
    with assms(2) have st: "st = Accepted" and lo: "loaded_ok s i b" by simp_all
    from Await_save assms(1) st
    have t': "t' = Await_findByIdAndUpdate (b\<lparr>b_status := Accepted\<rparr>) p"
      and s': "bids s' = saveStatus b Accepted (bids s)"
      by auto
    have "stored s' i = Some Accepted"
    proof (cases "b_status b = Accepted")
      case True
      with lo s' show ?thesis by (simp add: loaded_ok_def stored_def findBid_def saveStatus_def)
    next
      case False
      have "find (\<lambda>x. b_id x = i) (updateOne (\<lambda>x. b_id x = i) (\<lambda>x. x\<lparr>b_status := Accepted\<rparr>) (bids s))
          = map_option (\<lambda>x. x\<lparr>b_status := Accepted\<rparr>) (find (\<lambda>x. b_id x = i) (bids s))"
        by (rule find_updateOne_same) simp
      with False lo s' fb show ?thesis
        by (simp add: loaded_ok_def stored_def findBid_def saveStatus_def)
    qed
    with t' lo show ?thesis by (simp add: loaded_ok_def)
  next
    case (Await_findByIdAndUpdate b p)
    with assms(1,2) show ?thesis by (auto simp: stored_def findBid_def)
  next
    case (Await_updateMany b p)
    with assms(1,2) show ?thesis
      by (auto simp: stored_def findBid_def find_rejectOthers split: if_splits)
  next
    case (Finished out)
    with assms(1,2) show ?thesis by auto
  qed
qed

lemma accepting_start: "accepting s user i (start user (Some i) ''accepted'')"
  by (simp add: start_def parseStatus_def)

lemma interleave_accepting:
  assumes "i1 \<noteq> i2"
    and "owned s user i1" and "owned s user i2"
    and "accepting s user i1 t1" and "accepting s user i2 t2"
    and "interleave cs s t1 t2 = (s', t1', t2')"
  shows "accepting s' user i1 t1' \<and> accepting s' user i2 t2'"
  using assms(2-)
proof (induction cs arbitrary: s t1 t2)
  case Nil
  then show ?case by simp
next
  case (Cons c cs)
  show ?case
  proof (cases c)
    case True
    obtain u s1 where st: "step s t1 = (u, s1)" by (cases "step s t1")
    with True Cons.prems(5) have rest: "interleave cs s1 u t2 = (s', t1', t2')" by simp
    show ?thesis
    proof (rule Cons.IH[OF _ _ _ _ rest])
      show "owned s1 user i1" by (rule step_owned[OF st Cons.prems(1)])
      show "owned s1 user i2" by (rule step_owned[OF st Cons.prems(2)])
      show "accepting s1 user i1 u" by (rule step_own_accepting[OF st Cons.prems(3,1)])
      show "accepting s1 user i2 t2"
        by (rule step_other_accepting[OF st Cons.prems(3) assms(1) Cons.prems(4)])
    qed
  next
    case False
    obtain u s1 where st: "step s t2 = (u, s1)" by (cases "step s t2")
    with False Cons.prems(5) have rest: "interleave cs s1 t1 u = (s', t1', t2')" by simp
    show ?thesis
    proof (rule Cons.IH[OF _ _ _ _ rest])
      show "owned s1 user i1" by (rule step_owned[OF st Cons.prems(1)])
      show "owned s1 user i2" by (rule step_owned[OF st Cons.prems(2)])
      show "accepting s1 user i2 u" by (rule step_own_accepting[OF st Cons.prems(4,2)])
      show "accepting s1 user i1 t1"
        by (rule step_other_accepting[OF st Cons.prems(4) assms(1)[symmetric] Cons.prems(3)])
    qed
  qed
qed

lemma step_remaining: "remaining (fst (step s t)) \<le> remaining t - 1"
  by (cases t) (auto split: option.splits)

lemma interleave_remaining:
  "interleave cs s t1 t2 = (s', t1', t2') \<Longrightarrow>
   remaining t1' \<le> remaining t1 - count_list cs True \<and>
   remaining t2' \<le> remaining t2 - count_list cs False"
proof (induction cs arbitrary: s t1 t2)
  case Nil
  then show ?case by simp
next
  case (Cons c cs)
  show ?case
  proof (cases c)
    case True
    obtain u s1 where st: "step s t1 = (u, s1)" by (cases "step s t1")
    with True Cons.prems have "interleave cs s1 u t2 = (s', t1', t2')" by simp
    from Cons.IH[OF this] step_remaining[of s t1] st True show ?thesis by simp arith
  next
    case False
    obtain u s1 where st: "step s t2 = (u, s1)" by (cases "step s t2")
    with False Cons.prems have "interleave cs s1 t1 u = (s', t1', t2')" by simp
    from Cons.IH[OF this] step_remaining[of s t2] st False show ?thesis by simp arith
  qed
qed

lemma remaining_start: "remaining (start user idp st) \<le> 5"
  by (simp add: start_def split: option.splits)

lemma remaining_0: "remaining t = 0 \<Longrightarrow> \<exists>out. t = Finished out"
  by (cases t) simp_all

text \<open>
  Two accept requests of the owner for two different bids, in flight together, under any
  schedule that lets each perform its five store operations: both finish with 200 and
  both bids are accepted in the store afterwards.
\<close>

lemma concurrent_accepts_every_schedule:
  assumes "i1 \<noteq> i2" and "owned s user i1" and "owned s user i2"
    and "5 \<le> count_list cs True" and "5 \<le> count_list cs False"
    and "interleave cs s (start user (Some i1) ''accepted'') (start user (Some i2) ''accepted'') =
           (s', t1', t2')"
  shows "(\<exists>b1 b2. t1' = Finished (BidUpdated b1) \<and> t2' = Finished (BidUpdated b2)) \<and>
         stored s' i1 = Some Accepted \<and> stored s' i2 = Some Accepted"
proof -
  from interleave_remaining[OF assms(6)] assms(4,5)
    remaining_start[of user "Some i1" "''accepted''"]
    remaining_start[of user "Some i2" "''accepted''"]
  have "remaining t1' = 0" and "remaining t2' = 0" by simp_all
  with remaining_0[of t1'] remaining_0[of t2']
  obtain o1 o2 where fin: "t1' = Finished o1" "t2' = Finished o2"
    by blast
  from interleave_accepting[OF assms(1-3) accepting_start accepting_start assms(6)] fin
  show ?thesis by (auto split: outcome.splits)
qed

text \<open>
  C4 at two accept requests of the owner, for bids 101 and 102 of the same project, in
  flight together. Whether their store operations alternate or the first request
  finishes before the second starts, both requests answer 200 and both bids end up
  accepted; no request is refused.
\<close>

theorem concurrent_accepts_both_succeed:
  "interleave [True, False, True, False, True, False, True, False, True, False] db3
      (start 10 (Some 101) ''accepted'') (start 10 (Some 102) ''accepted'') =
     (\<lparr>projects = [shop\<lparr>p_status := In_progress, assignedTo := Some 21\<rparr>],
       bids = [bidOf 101 20 Accepted, bidOf 102 21 Accepted, bidOf 103 22 Rejected]\<rparr>,
      Finished (BidUpdated (bidOf 101 20 Accepted)),
      Finished (BidUpdated (bidOf 102 21 Accepted))) \<and>
   interleave [True, True, True, True, True, False, False, False, False, False] db3
      (start 10 (Some 101) ''accepted'') (start 10 (Some 102) ''accepted'') =
     (\<lparr>projects = [shop\<lparr>p_status := In_progress, assignedTo := Some 21\<rparr>],
       bids = [bidOf 101 20 Accepted, bidOf 102 21 Accepted, bidOf 103 22 Rejected]\<rparr>,
      Finished (BidUpdated (bidOf 101 20 Accepted)),
      Finished (BidUpdated (bidOf 102 21 Accepted)))"
  by (simp add: start_def parseStatus_def findBid_def findProject_def db3_def bidOf_def
      shop_def saveStatus_def rejectOthers_def findByIdAndUpdate_def)

end
